theory Spec2Isabelle
  imports Complex_Main "HOL-Library.Word"
begin

unbundle bit_operations_syntax

section \<open>The OCR pipeline of \<^verbatim>\<open>paddle_ocr_jni.cpp\<close>\<close>

text \<open>
  A shallow embedding of the four native entry points of
  \<^verbatim>\<open>android/src/main/cpp/paddle_ocr_jni.cpp\<close>:
  \<^verbatim>\<open>nativeInit\<close>, \<^verbatim>\<open>nativeDetectText\<close>, \<^verbatim>\<open>nativeRecognizeText\<close> and
  \<^verbatim>\<open>nativeDispose\<close>.

  Conventions of the model.
  \<^item> A C++ \<^verbatim>\<open>int\<close> is a HOL \<open>int\<close> between \<open>INT_MIN\<close> and \<open>INT_MAX\<close>. Signed
    overflow is undefined behaviour in C++; the model checks every \<^verbatim>\<open>int\<close>
    expression the source evaluates and stops with \<open>UB SignedOverflow\<close> when a value
    leaves the range.
  \<^item> A read or write through a raw pointer or \<^verbatim>\<open>operator[]\<close> outside the buffer is
    undefined behaviour too: \<open>UB OutOfBounds\<close>. Dereferencing a pointer to no live
    object is \<open>UB InvalidPointer\<close>.
  \<^item> A C++ exception is a value \<open>Thrown e\<close>. Everything the source can throw derives
    from \<^verbatim>\<open>std::exception\<close> (\<^verbatim>\<open>std::length_error\<close> of the vector constructor,
    \<^verbatim>\<open>Ort::Exception\<close> of the runtime), which is what the handlers catch.
  \<^item> A \<^verbatim>\<open>float\<close> is idealised as a \<open>real\<close>: the rounding of \<^verbatim>\<open>r / 255.0f\<close> to
    single precision is not modelled. The decoder only copies floats and compares
    them with \<^verbatim>\<open>0.5f\<close>, which is exact.
  \<^item> The heap is explicit: the live \<^verbatim>\<open>OCRHandle\<close> and \<^verbatim>\<open>Ort::Session\<close> objects by
    address. Memory is never exhausted (\<^verbatim>\<open>new\<close> does not throw
    \<^verbatim>\<open>std::bad_alloc\<close>), the target is a 64-bit one, and the JNI calls themselves
    succeed. Logging is left out.
  \<^item> The inference runtime is opaque: loading a model file and running a session
    are parameters of the model. \<^verbatim>\<open>Ort::Value::CreateTensor\<close> wraps the buffer and
    the dimensions; whatever the runtime checks about them is part of what \<^verbatim>\<open>Run\<close>
    answers.
\<close>

subsection \<open>Faults\<close>

datatype exn = LengthError | OrtException string

datatype ub = SignedOverflow | OutOfBounds | InvalidPointer

datatype fault = Thrown exn | UB ub

definition INT_MAX :: int where
  "INT_MAX = 2147483647"

definition INT_MIN :: int where
  "INT_MIN = - 2147483648"

definition int_ok :: "int \<Rightarrow> bool" where
  "int_ok v = (INT_MIN \<le> v \<and> v \<le> INT_MAX)"

text \<open>\<^verbatim>\<open>p[i]\<close> on a raw buffer, and \<^verbatim>\<open>v[i] = x\<close> on a vector.\<close>

definition load_at :: "'a list \<Rightarrow> int \<Rightarrow> fault + 'a" where
  "load_at buf i =
     (if 0 \<le> i \<and> i < int (length buf) then Inr (buf ! nat i) else Inl (UB OutOfBounds))"

definition store_at :: "'a list \<Rightarrow> int \<Rightarrow> 'a \<Rightarrow> fault + 'a list" where
  "store_at v i x =
     (if 0 \<le> i \<and> i < int (length v) then Inr (v[nat i := x]) else Inl (UB OutOfBounds))"

subsection \<open>The tensor encoder of \<^verbatim>\<open>nativeDetectText\<close> (lines 69 to 86)\<close>

text \<open>
  \<^verbatim>\<open>(pixel >> 16) & 0xFF\<close>, \<^verbatim>\<open>(pixel >> 8) & 0xFF\<close> and \<^verbatim>\<open>pixel & 0xFF\<close>, each
  narrowed to \<^verbatim>\<open>uint8_t\<close>; and \<^verbatim>\<open>c / 255.0f\<close>.
\<close>

definition red_of :: "32 word \<Rightarrow> 8 word" where
  "red_of pixel = ucast (drop_bit 16 pixel AND 0xFF)"

definition green_of :: "32 word \<Rightarrow> 8 word" where
  "green_of pixel = ucast (drop_bit 8 pixel AND 0xFF)"

definition blue_of :: "32 word \<Rightarrow> 8 word" where
  "blue_of pixel = ucast (pixel AND 0xFF)"

definition div255 :: "8 word \<Rightarrow> real" where
  "div255 c = real (unat c) / 255"

text \<open>The inner loop \<^verbatim>\<open>for (int x = 0; x < width; x++)\<close>, entered at \<open>x\<close>.\<close>

function detect_cols ::
  "int \<Rightarrow> int \<Rightarrow> 32 word list \<Rightarrow> int \<Rightarrow> int \<Rightarrow> real list \<Rightarrow> fault + real list" where
  "detect_cols width height rgbaPixels y x inputTensor =
     (if x < width then
        if \<not> (int_ok (y * width) \<and> int_ok (y * width + x)) then Inl (UB SignedOverflow)
        else
          (case load_at rgbaPixels (y * width + x) of
            Inl f \<Rightarrow> Inl f
          | Inr pixel \<Rightarrow>
              let r = red_of pixel; g = green_of pixel; b = blue_of pixel;
                  idx = y * width + x
              in
                if \<not> (int_ok (0 * height) \<and> int_ok (0 * height * width)
                       \<and> int_ok (0 * height * width + idx)) then Inl (UB SignedOverflow)
                else
                  (case store_at inputTensor (0 * height * width + idx) (div255 r) of
                    Inl f \<Rightarrow> Inl f
                  | Inr t0 \<Rightarrow>
                      if \<not> (int_ok (1 * height) \<and> int_ok (1 * height * width)
                             \<and> int_ok (1 * height * width + idx)) then Inl (UB SignedOverflow)
                      else
                        (case store_at t0 (1 * height * width + idx) (div255 g) of
                          Inl f \<Rightarrow> Inl f
                        | Inr t1 \<Rightarrow>
                            if \<not> (int_ok (2 * height) \<and> int_ok (2 * height * width)
                                   \<and> int_ok (2 * height * width + idx))
                            then Inl (UB SignedOverflow)
                            else
                              (case store_at t1 (2 * height * width + idx) (div255 b) of
                                Inl f \<Rightarrow> Inl f
                              | Inr t2 \<Rightarrow>
                                  detect_cols width height rgbaPixels y (x + 1) t2))))
      else Inr inputTensor)"
  by pat_completeness auto
termination
  by (relation "measure (\<lambda>(width, height, rgbaPixels, y, x, inputTensor). nat (width - x))")
    auto

declare detect_cols.simps [simp del]

text \<open>The outer loop \<^verbatim>\<open>for (int y = 0; y < height; y++)\<close>, entered at \<open>y\<close>.\<close>

function detect_rows ::
  "int \<Rightarrow> int \<Rightarrow> 32 word list \<Rightarrow> int \<Rightarrow> real list \<Rightarrow> fault + real list" where
  "detect_rows width height rgbaPixels y inputTensor =
     (if y < height then
        case detect_cols width height rgbaPixels y 0 inputTensor of
          Inl f \<Rightarrow> Inl f
        | Inr t \<Rightarrow> detect_rows width height rgbaPixels (y + 1) t
      else Inr inputTensor)"
  by pat_completeness auto
termination
  by (relation "measure (\<lambda>(width, height, rgbaPixels, y, inputTensor). nat (height - y))")
    auto

declare detect_rows.simps [simp del]

text \<open>
  \<^verbatim>\<open>std::vector<float> inputTensor(3 * height * width)\<close> followed by the two loops.
  The size is computed in \<^verbatim>\<open>int\<close> and converted to \<^verbatim>\<open>size_t\<close>: a negative size
  becomes a size beyond \<^verbatim>\<open>max_size()\<close> and the constructor throws
  \<^verbatim>\<open>std::length_error\<close>. The vector is zero-initialised.
\<close>

definition detect_encode :: "int \<Rightarrow> int \<Rightarrow> 32 word list \<Rightarrow> fault + real list" where
  "detect_encode width height rgbaPixels =
     (if \<not> (int_ok (3 * height) \<and> int_ok (3 * height * width)) then Inl (UB SignedOverflow)
      else if 3 * height * width < 0 then Inl (Thrown LengthError)
      else detect_rows width height rgbaPixels 0 (replicate (nat (3 * height * width)) 0))"


subsection \<open>The tensor encoder of \<^verbatim>\<open>nativeRecognizeText\<close> (lines 148 to 164)\<close>

text \<open>The source repeats the conversion in the second entry point; so does the model.\<close>

function recognize_cols ::
  "int \<Rightarrow> int \<Rightarrow> 32 word list \<Rightarrow> int \<Rightarrow> int \<Rightarrow> real list \<Rightarrow> fault + real list" where
  "recognize_cols width height rgbaPixels y x inputTensor =
     (if x < width then
        if \<not> (int_ok (y * width) \<and> int_ok (y * width + x)) then Inl (UB SignedOverflow)
        else
          (case load_at rgbaPixels (y * width + x) of
            Inl f \<Rightarrow> Inl f
          | Inr pixel \<Rightarrow>
              let r = red_of pixel; g = green_of pixel; b = blue_of pixel;
                  idx = y * width + x
              in
                if \<not> (int_ok (0 * height) \<and> int_ok (0 * height * width)
                       \<and> int_ok (0 * height * width + idx)) then Inl (UB SignedOverflow)
                else
                  (case store_at inputTensor (0 * height * width + idx) (div255 r) of
                    Inl f \<Rightarrow> Inl f
                  | Inr t0 \<Rightarrow>
                      if \<not> (int_ok (1 * height) \<and> int_ok (1 * height * width)
                             \<and> int_ok (1 * height * width + idx)) then Inl (UB SignedOverflow)
                      else
                        (case store_at t0 (1 * height * width + idx) (div255 g) of
                          Inl f \<Rightarrow> Inl f
                        | Inr t1 \<Rightarrow>
                            if \<not> (int_ok (2 * height) \<and> int_ok (2 * height * width)
                                   \<and> int_ok (2 * height * width + idx))
                            then Inl (UB SignedOverflow)
                            else
                              (case store_at t1 (2 * height * width + idx) (div255 b) of
                                Inl f \<Rightarrow> Inl f
                              | Inr t2 \<Rightarrow>
                                  recognize_cols width height rgbaPixels y (x + 1) t2))))
      else Inr inputTensor)"
  by pat_completeness auto
termination
  by (relation "measure (\<lambda>(width, height, rgbaPixels, y, x, inputTensor). nat (width - x))")
    auto

declare recognize_cols.simps [simp del]

function recognize_rows ::
  "int \<Rightarrow> int \<Rightarrow> 32 word list \<Rightarrow> int \<Rightarrow> real list \<Rightarrow> fault + real list" where
  "recognize_rows width height rgbaPixels y inputTensor =
     (if y < height then
        case recognize_cols width height rgbaPixels y 0 inputTensor of
          Inl f \<Rightarrow> Inl f
        | Inr t \<Rightarrow> recognize_rows width height rgbaPixels (y + 1) t
      else Inr inputTensor)"
  by pat_completeness auto
termination
  by (relation "measure (\<lambda>(width, height, rgbaPixels, y, inputTensor). nat (height - y))")
    auto

declare recognize_rows.simps [simp del]

definition recognize_encode :: "int \<Rightarrow> int \<Rightarrow> 32 word list \<Rightarrow> fault + real list" where
  "recognize_encode width height rgbaPixels =
     (if \<not> (int_ok (3 * height) \<and> int_ok (3 * height * width)) then Inl (UB SignedOverflow)
      else if 3 * height * width < 0 then Inl (Thrown LengthError)
      else recognize_rows width height rgbaPixels 0 (replicate (nat (3 * height * width)) 0))"

subsection \<open>The detection decoder (lines 101 to 117)\<close>

text \<open>
  \<^verbatim>\<open>int numDets = outputShape[1]\<close> narrows an \<^verbatim>\<open>int64_t\<close> to \<^verbatim>\<open>int\<close>: the value
  modulo \<open>2 ^ 32\<close>, read as two's complement.
\<close>

definition int_of_int64 :: "int \<Rightarrow> int" where
  "int_of_int64 v = (v + 2147483648) mod 4294967296 - 2147483648"

text \<open>The loop \<^verbatim>\<open>for (int j = 0; j < featDim; j++)\<close> of row \<open>i\<close>, entered at \<open>j\<close>.\<close>

function decode_feats :: "int \<Rightarrow> real list \<Rightarrow> int \<Rightarrow> int \<Rightarrow> real list \<Rightarrow> fault + real list" where
  "decode_feats featDim outputData i j detection =
     (if j < featDim then
        if \<not> (int_ok (i * featDim) \<and> int_ok (i * featDim + j)) then Inl (UB SignedOverflow)
        else
          (case load_at outputData (i * featDim + j) of
            Inl f \<Rightarrow> Inl f
          | Inr v \<Rightarrow> decode_feats featDim outputData i (j + 1) (detection @ [v]))
      else Inr detection)"
  by pat_completeness auto
termination
  by (relation "measure (\<lambda>(featDim, outputData, i, j, detection). nat (featDim - j))") auto

declare decode_feats.simps [simp del]

text \<open>The loop \<^verbatim>\<open>for (int i = 0; i < numDets; i++)\<close>, entered at \<open>i\<close>.\<close>

function decode_dets ::
  "int \<Rightarrow> int \<Rightarrow> real list \<Rightarrow> int \<Rightarrow> real list list \<Rightarrow> fault + real list list" where
  "decode_dets numDets featDim outputData i dets =
     (if i < numDets then
        case decode_feats featDim outputData i 0 [] of
          Inl f \<Rightarrow> Inl f
        | Inr detection \<Rightarrow>
            decode_dets numDets featDim outputData (i + 1)
              (if length detection > 8 \<and> detection ! 8 > 0.5 then dets @ [detection]
               else dets)
      else Inr dets)"
  by pat_completeness auto
termination
  by (relation "measure (\<lambda>(numDets, featDim, outputData, i, dets). nat (numDets - i))") auto

declare decode_dets.simps [simp del]

definition detection_decode :: "int list \<Rightarrow> real list \<Rightarrow> fault + real list list" where
  "detection_decode outputShape outputData =
     (if length outputShape \<ge> 3 then
        let numDets = int_of_int64 (outputShape ! 1);
            featDim = int_of_int64 (outputShape ! 2)
        in decode_dets numDets featDim outputData 0 []
      else Inr [])"

subsection \<open>The recognition decoder (lines 174 to 177)\<close>

text \<open>
  The source does not look at the session's output:
  \<^verbatim>\<open>std::string result = "123456"; // Mock water meter reading\<close>.
\<close>

record ort_value =
  tensor_shape :: "int list"
  tensor_data :: "real list"

definition recognition_decode :: "ort_value list \<Rightarrow> string" where
  "recognition_decode output = ''123456''"

text \<open>
  The decoder the specification describes, written from its words for comparison:
  over the sequence of per-timestep symbol indices (the highest-probability symbol of
  each timestep), collapse consecutive repeats, drop the blank index and concatenate
  the vocabulary entries of what remains, in timestep order.
\<close>

definition spec_greedy_decode :: "nat \<Rightarrow> string list \<Rightarrow> nat list \<Rightarrow> string" where
  "spec_greedy_decode blank vocabulary indices =
     concat (map (\<lambda>k. vocabulary ! k) (filter (\<lambda>k. k \<noteq> blank) (remdups_adj indices)))"

subsection \<open>Handles, sessions and the heap\<close>

text \<open>
  \<^verbatim>\<open>struct OCRHandle\<close>: three pointers, as addresses (\<open>0\<close> is \<^verbatim>\<open>nullptr\<close>). An
  \<^verbatim>\<open>Ort::Session\<close> is opaque: what \<^verbatim>\<open>GetInputName(0, ...)\<close> returns or throws, and
  what \<^verbatim>\<open>Run\<close> returns or throws for an input name and an input tensor.
\<close>

record OCRHandle =
  detSession :: nat
  clsSession :: nat
  recSession :: nat

record Session =
  GetInputName :: "exn + string"
  Run :: "string \<Rightarrow> ort_value \<Rightarrow> exn + ort_value list"

text \<open>
  The calls that reach outside the function, in the order they happen:
  \<^verbatim>\<open>AndroidBitmap_lockPixels\<close>, \<^verbatim>\<open>AndroidBitmap_unlockPixels\<close> and \<^verbatim>\<open>Run\<close> on the
  session at an address.
\<close>

datatype event = LockPixels | UnlockPixels | SessionRun nat

record world =
  ocr_handles :: "nat \<rightharpoonup> OCRHandle"
  ort_sessions :: "nat \<rightharpoonup> Session"
  next_addr :: nat
  events :: "event list"

definition emit :: "event \<Rightarrow> world \<Rightarrow> world" where
  "emit ev w = w\<lparr>events := events w @ [ev]\<rparr>"

text \<open>\<^verbatim>\<open>new OCRHandle()\<close>: a fresh, value-initialised object (three null pointers).\<close>

definition new_OCRHandle :: "world \<Rightarrow> nat \<times> world" where
  "new_OCRHandle w =
     (let p = Suc (next_addr w)
      in (p, w\<lparr>ocr_handles := (ocr_handles w)
                  (p \<mapsto> \<lparr>detSession = 0, clsSession = 0, recSession = 0\<rparr>),
               next_addr := p\<rparr>))"

text \<open>
  \<^verbatim>\<open>new Ort::Session(::env, path, options)\<close>: the constructor reads the model file and
  may throw; then nothing stays allocated. \<open>load\<close> stands for the runtime and
  the file system.
\<close>

definition new_Session ::
  "(string \<Rightarrow> exn + Session) \<Rightarrow> string \<Rightarrow> world \<Rightarrow> exn + nat \<times> world" where
  "new_Session load path w =
     (case load path of
        Inl e \<Rightarrow> Inl e
      | Inr s \<Rightarrow>
          let p = Suc (next_addr w)
          in Inr (p, w\<lparr>ort_sessions := (ort_sessions w)(p \<mapsto> s), next_addr := p\<rparr>))"

text \<open>\<^verbatim>\<open>handle->field = p\<close>, for a handle that \<^verbatim>\<open>new\<close> has just returned.\<close>

definition assign_handle :: "nat \<Rightarrow> (OCRHandle \<Rightarrow> OCRHandle) \<Rightarrow> world \<Rightarrow> world" where
  "assign_handle handle upd w =
     w\<lparr>ocr_handles := (ocr_handles w)(handle := map_option upd (ocr_handles w handle))\<rparr>"

text \<open>
  \<^verbatim>\<open>delete p\<close> on a session pointer: nothing for \<^verbatim>\<open>nullptr\<close>, undefined for a pointer
  to no live session.
\<close>

definition delete_Session :: "nat \<Rightarrow> world \<Rightarrow> ub + world" where
  "delete_Session p w =
     (if p = 0 then Inr w
      else if ort_sessions w p = None then Inl InvalidPointer
      else Inr (w\<lparr>ort_sessions := (ort_sessions w)(p := None)\<rparr>))"

subsection \<open>\<^verbatim>\<open>nativeInit\<close> (lines 24 to 53)\<close>

text \<open>
  The result is the \<^verbatim>\<open>jlong\<close> returned and the world afterwards. The
  \<^verbatim>\<open>catch (const std::exception&)\<close> handler releases the three path strings and
  returns \<open>0\<close>; it deletes nothing.
\<close>

definition nativeInit ::
  "(string \<Rightarrow> exn + Session) \<Rightarrow> world \<Rightarrow> string \<Rightarrow> string \<Rightarrow> string \<Rightarrow> nat \<times> world" where
  "nativeInit load w detPath clsPath recPath =
     (let (handle, w0) = new_OCRHandle w in
      case new_Session load detPath w0 of
        Inl e \<Rightarrow> (0, w0)
      | Inr (d, w1) \<Rightarrow>
          let w1' = assign_handle handle (\<lambda>h. h\<lparr>detSession := d\<rparr>) w1 in
          (case new_Session load clsPath w1' of
             Inl e \<Rightarrow> (0, w1')
           | Inr (c, w2) \<Rightarrow>
               let w2' = assign_handle handle (\<lambda>h. h\<lparr>clsSession := c\<rparr>) w2 in
               (case new_Session load recPath w2' of
                  Inl e \<Rightarrow> (0, w2')
                | Inr (r, w3) \<Rightarrow>
                    (handle, assign_handle handle (\<lambda>h. h\<lparr>recSession := r\<rparr>) w3))))"

subsection \<open>\<^verbatim>\<open>nativeDispose\<close> (lines 184 to 194)\<close>

definition nativeDispose :: "world \<Rightarrow> nat \<Rightarrow> ub + world" where
  "nativeDispose w handle =
     (if handle = 0 then Inr w
      else
        case ocr_handles w handle of
          None \<Rightarrow> Inl InvalidPointer
        | Some h \<Rightarrow>
            (case delete_Session (detSession h) w of
               Inl u \<Rightarrow> Inl u
             | Inr w1 \<Rightarrow>
                 (case delete_Session (clsSession h) w1 of
                    Inl u \<Rightarrow> Inl u
                  | Inr w2 \<Rightarrow>
                      (case delete_Session (recSession h) w2 of
                         Inl u \<Rightarrow> Inl u
                       | Inr w3 \<Rightarrow>
                           Inr (w3\<lparr>ocr_handles := (ocr_handles w3)(handle := None)\<rparr>)))))"

subsection \<open>\<^verbatim>\<open>nativeDetectText\<close> (lines 55 to 132)\<close>

text \<open>
  \<^verbatim>\<open>AndroidBitmapInfo\<close> (the two fields the source reads, both \<^verbatim>\<open>uint32_t\<close>) and
  the locked pixel buffer as 32-bit words.
\<close>

record AndroidBitmapInfo =
  info_width :: "32 word"
  info_height :: "32 word"

record bitmap =
  bitmap_info :: AndroidBitmapInfo
  bitmap_pixels :: "32 word list"

text \<open>
  The \<^verbatim>\<open>try\<close> block: what it returns or what stops it, and the world at that point.
  \<^verbatim>\<open>int width = info.width\<close> reads the unsigned field as a signed \<^verbatim>\<open>int\<close>.
\<close>

definition detect_try ::
  "world \<Rightarrow> nat \<Rightarrow> bitmap \<Rightarrow> (fault + real list list) \<times> world" where
  "detect_try w handle bmp =
     (let w1 = emit LockPixels w;
          width = sint (info_width (bitmap_info bmp));
          height = sint (info_height (bitmap_info bmp))
      in
        case detect_encode width height (bitmap_pixels bmp) of
          Inl f \<Rightarrow> (Inl f, w1)
        | Inr inputTensor \<Rightarrow>
            let w2 = emit UnlockPixels w1;
                input = \<lparr>tensor_shape = [1, 3, height, width], tensor_data = inputTensor\<rparr>
            in
              (case ocr_handles w2 handle of
                 None \<Rightarrow> (Inl (UB InvalidPointer), w2)
               | Some h \<Rightarrow>
                   (case ort_sessions w2 (detSession h) of
                      None \<Rightarrow> (Inl (UB InvalidPointer), w2)
                    | Some s \<Rightarrow>
                        (case GetInputName s of
                           Inl e \<Rightarrow> (Inl (Thrown e), w2)
                         | Inr inputName \<Rightarrow>
                             let w3 = emit (SessionRun (detSession h)) w2 in
                             (case Run s inputName input of
                                Inl e \<Rightarrow> (Inl (Thrown e), w3)
                              | Inr output \<Rightarrow>
                                  (case output of
                                     [] \<Rightarrow> (Inl (UB OutOfBounds), w3)
                                   | out0 # _ \<Rightarrow>
                                       (detection_decode (tensor_shape out0)
                                          (tensor_data out0), w3)))))))"

text \<open>
  The function: the null check, the \<^verbatim>\<open>try\<close> block, and the handler that turns
  every exception into \<^verbatim>\<open>nullptr\<close> (\<open>None\<close>). Undefined behaviour is not an
  exception: no handler sees it.
\<close>

definition nativeDetectText ::
  "world \<Rightarrow> nat \<Rightarrow> bitmap \<Rightarrow> ub + (real list list option \<times> world)" where
  "nativeDetectText w handle bmp =
     (if handle = 0 then Inr (None, w)
      else
        case detect_try w handle bmp of
          (Inr dets, w') \<Rightarrow> Inr (Some dets, w')
        | (Inl (Thrown e), w') \<Rightarrow> Inr (None, w')
        | (Inl (UB u), w') \<Rightarrow> Inl u)"

subsection \<open>\<^verbatim>\<open>nativeRecognizeText\<close> (lines 134 to 182)\<close>

definition recognize_try :: "world \<Rightarrow> nat \<Rightarrow> bitmap \<Rightarrow> (fault + string) \<times> world" where
  "recognize_try w handle bmp =
     (let w1 = emit LockPixels w;
          width = sint (info_width (bitmap_info bmp));
          height = sint (info_height (bitmap_info bmp))
      in
        case recognize_encode width height (bitmap_pixels bmp) of
          Inl f \<Rightarrow> (Inl f, w1)
        | Inr inputTensor \<Rightarrow>
            let w2 = emit UnlockPixels w1;
                input = \<lparr>tensor_shape = [1, 3, height, width], tensor_data = inputTensor\<rparr>
            in
              (case ocr_handles w2 handle of
                 None \<Rightarrow> (Inl (UB InvalidPointer), w2)
               | Some h \<Rightarrow>
                   (case ort_sessions w2 (recSession h) of
                      None \<Rightarrow> (Inl (UB InvalidPointer), w2)
                    | Some s \<Rightarrow>
                        (case GetInputName s of
                           Inl e \<Rightarrow> (Inl (Thrown e), w2)
                         | Inr inputName \<Rightarrow>
                             let w3 = emit (SessionRun (recSession h)) w2 in
                             (case Run s inputName input of
                                Inl e \<Rightarrow> (Inl (Thrown e), w3)
                              | Inr output \<Rightarrow> (Inr (recognition_decode output), w3))))))"

definition nativeRecognizeText ::
  "world \<Rightarrow> nat \<Rightarrow> bitmap \<Rightarrow> ub + (string option \<times> world)" where
  "nativeRecognizeText w handle bmp =
     (if handle = 0 then Inr (None, w)
      else
        case recognize_try w handle bmp of
          (Inr result, w') \<Rightarrow> Inr (Some result, w')
        | (Inl (Thrown e), w') \<Rightarrow> Inr (None, w')
        | (Inl (UB u), w') \<Rightarrow> Inl u)"


subsection \<open>Predicates of the proofs\<close>

text \<open>
  \<open>planes buf n k t\<close>: the tensor \<open>t\<close> has three planes of \<open>n\<close> elements, and the
  first \<open>k\<close> pixels of \<open>buf\<close> are encoded in them.
\<close>

definition planes :: "32 word list \<Rightarrow> int \<Rightarrow> int \<Rightarrow> real list \<Rightarrow> bool" where
  "planes buf n k t \<longleftrightarrow>
     int (length t) = 3 * n \<and>
     (\<forall>p. 0 \<le> p \<and> p < k \<longrightarrow>
        t ! nat p = div255 (red_of (buf ! nat p)) \<and>
        t ! nat (n + p) = div255 (green_of (buf ! nat p)) \<and>
        t ! nat (2 * n + p) = div255 (blue_of (buf ! nat p)))"


subsection \<open>Concrete inputs\<close>

text \<open>
  Sessions, worlds and images on which the theorems below are instantiated. In
  \<open>ready_world\<close> the handle at address 1 owns three sessions that answer every input
  with one fixed tensor; in \<open>faulty_world\<close> every \<^verbatim>\<open>Run\<close> throws.
\<close>

definition answering_session :: "ort_value list \<Rightarrow> Session" where
  "answering_session output =
     \<lparr>GetInputName = Inr ''x'', Run = (\<lambda>inputName input. Inr output)\<rparr>"

definition throwing_session :: Session where
  "throwing_session =
     \<lparr>GetInputName = Inr ''x'', Run = (\<lambda>inputName input. Inl (OrtException ''run failed''))\<rparr>"

definition empty_world :: world where
  "empty_world =
     \<lparr>ocr_handles = Map.empty, ort_sessions = Map.empty, next_addr = 0, events = []\<rparr>"

definition ready_world :: world where
  "ready_world =
     \<lparr>ocr_handles = [1 \<mapsto> \<lparr>detSession = 2, clsSession = 3, recSession = 4\<rparr>],
      ort_sessions =
        [2 \<mapsto> answering_session [\<lparr>tensor_shape = [1, 0, 9], tensor_data = []\<rparr>],
         3 \<mapsto> answering_session [],
         4 \<mapsto> answering_session [\<lparr>tensor_shape = [1, 7], tensor_data = [4, 4, 0, 7, 7, 7, 1]\<rparr>]],
      next_addr = 4, events = []\<rparr>"

definition faulty_world :: world where
  "faulty_world =
     \<lparr>ocr_handles = [1 \<mapsto> \<lparr>detSession = 2, clsSession = 3, recSession = 4\<rparr>],
      ort_sessions = [2 \<mapsto> throwing_session, 3 \<mapsto> throwing_session, 4 \<mapsto> throwing_session],
      next_addr = 4, events = []\<rparr>"

definition one_pixel :: bitmap where
  "one_pixel =
     \<lparr>bitmap_info = \<lparr>info_width = 1, info_height = 1\<rparr>, bitmap_pixels = [0x11223344]\<rparr>"

definition two_pixels :: bitmap where
  "two_pixels =
     \<lparr>bitmap_info = \<lparr>info_width = 2, info_height = 1\<rparr>,
      bitmap_pixels = [0x11223344, 0xFF00FF80]\<rparr>"

text \<open>A width field of \<open>2 ^ 32 - 1\<close>, which \<^verbatim>\<open>int width = info.width\<close> reads as \<open>- 1\<close>.\<close>

definition huge_width :: bitmap where
  "huge_width =
     \<lparr>bitmap_info = \<lparr>info_width = 0xFFFFFFFF, info_height = 1\<rparr>, bitmap_pixels = []\<rparr>"

text \<open>A one-pixel image whose locked buffer holds no word at all.\<close>

definition short_buffer :: bitmap where
  "short_buffer =
     \<lparr>bitmap_info = \<lparr>info_width = 1, info_height = 1\<rparr>, bitmap_pixels = []\<rparr>"

text \<open>A loader for which only the detection model can be read.\<close>

definition det_only_loader :: "string \<Rightarrow> exn + Session" where
  "det_only_loader path =
     (if path = ''det.onnx'' then Inr (answering_session [])
      else Inl (OrtException ''Load model failed''))"

text \<open>A vocabulary of the ten digits; index 0 is the blank.\<close>

definition digit_vocabulary :: "string list" where
  "digit_vocabulary = map (\<lambda>c. [c]) ''-0123456789''"


section \<open>Properties\<close>

text \<open>Unfolding the encoders on concrete images.\<close>

lemmas encode_eval = detect_encode_def recognize_encode_def int_ok_def INT_MAX_def INT_MIN_def
  detect_rows.simps detect_cols.simps recognize_rows.simps recognize_cols.simps
  load_at_def store_at_def red_of_def green_of_def blue_of_def div255_def Let_def

subsection \<open>The tensor encoder\<close>

lemma and_ff: "(w :: 32 word) AND 0xFF = take_bit 8 w"
  by (simp add: take_bit_eq_mask mask_eq_exp_minus_1)

lemma red_of_unat: "unat (red_of p) = unat p div 65536 mod 256"
  by (simp add: red_of_def and_ff unsigned_ucast_eq unsigned_take_bit_eq unat_drop_bit_eq take_bit_eq_mod drop_bit_eq_div unat_div unat_mod)

lemma green_of_unat: "unat (green_of p) = unat p div 256 mod 256"
  by (simp add: green_of_def and_ff unsigned_ucast_eq unsigned_take_bit_eq unat_drop_bit_eq take_bit_eq_mod drop_bit_eq_div unat_div unat_mod)

lemma blue_of_unat: "unat (blue_of p) = unat p mod 256"
  by (simp add: blue_of_def and_ff unsigned_ucast_eq unsigned_take_bit_eq unat_drop_bit_eq take_bit_eq_mod drop_bit_eq_div unat_div unat_mod)

lemma div255_range: "0 \<le> div255 c \<and> div255 c \<le> 1"
proof -
  have "unat c < 2 ^ 8" using unsigned_less [of c, where ?'a = nat] by simp
  then have "unat c \<le> 255" by simp
  then have "real (unat c) \<le> real 255" by (simp only: of_nat_le_iff)
  moreover have "0 \<le> real (unat c)" by (rule of_nat_0_le_iff)
  ultimately show ?thesis by (simp add: div255_def)
qed

lemma pixel_index_bound:
  fixes y h x w :: int
  assumes "0 \<le> y" "y < h" "0 \<le> x" "x < w"
  shows "0 \<le> y * w \<and> y * w + x < h * w"
proof -
  have w: "0 \<le> w" using assms by simp
  have "(y + 1) * w \<le> h * w"
    using assms w by (intro mult_right_mono) auto
  then have "y * w + w \<le> h * w" by (simp add: algebra_simps)
  moreover have "0 \<le> y * w" using assms w by simp
  ultimately show ?thesis using assms by simp
qed

lemma detect_cols_step:
  assumes "0 \<le> y" "y < h" "0 \<le> x" "x < w"
    and "3 * h \<le> INT_MAX" "3 * (h * w) \<le> INT_MAX"
    and "int (length t) = 3 * (h * w)" "y * w + x < int (length buf)"
  shows "detect_cols w h buf y x t =
         detect_cols w h buf y (x + 1)
           (t[nat (y * w + x) := div255 (red_of (buf ! nat (y * w + x))),
              nat (h * w + (y * w + x)) := div255 (green_of (buf ! nat (y * w + x))),
              nat (2 * (h * w) + (y * w + x)) := div255 (blue_of (buf ! nat (y * w + x)))])"
proof -
  define n where "n = h * w"
  define yw where "yw = y * w"
  have b: "0 \<le> yw" "yw + x < n"
    using pixel_index_bound [OF assms(1-4)] by (simp_all add: n_def yw_def)
  have h: "0 \<le> h" using assms by simp
  have l: "int (length t) = 3 * n" "yw + x < int (length buf)" "3 * n \<le> INT_MAX"
    using assms by (simp_all add: n_def yw_def)
  show ?thesis
    using assms(3-5) b h l
    by (subst detect_cols.simps)
      (simp add: int_ok_def INT_MAX_def INT_MIN_def load_at_def store_at_def Let_def
        mult.assoc n_def [symmetric] yw_def [symmetric])
qed

lemma detect_cols_past_end:
  assumes "0 \<le> y" "y < h" "0 \<le> x" "x < w"
    and "3 * (h * w) \<le> INT_MAX" "int (length buf) \<le> y * w + x"
  shows "detect_cols w h buf y x t = Inl (UB OutOfBounds)"
proof -
  define n where "n = h * w"
  define yw where "yw = y * w"
  have b: "0 \<le> yw" "yw + x < n"
    using pixel_index_bound [OF assms(1-4)] by (simp_all add: n_def yw_def)
  have l: "int (length buf) \<le> yw + x" "3 * n \<le> INT_MAX"
    using assms by (simp_all add: n_def yw_def)
  show ?thesis
    using assms(3,4) b l
    by (subst detect_cols.simps)
      (simp add: int_ok_def INT_MAX_def INT_MIN_def load_at_def
        n_def [symmetric] yw_def [symmetric])
qed

lemma planes_step:
  assumes "planes buf n k t" "0 \<le> k" "k < n"
  shows "planes buf n (k + 1)
           (t[nat k := div255 (red_of (buf ! nat k)),
              nat (n + k) := div255 (green_of (buf ! nat k)),
              nat (2 * n + k) := div255 (blue_of (buf ! nat k))])"
  using assms unfolding planes_def
  by (auto simp: nth_list_update nat_eq_iff)

lemma detect_cols_planes:
  assumes "0 \<le> y" "y < h" "0 \<le> x" "x \<le> w"
    and "3 * h \<le> INT_MAX" "3 * (h * w) \<le> INT_MAX"
    and "planes buf (h * w) (y * w + x) t"
  shows "if y * w + w \<le> int (length buf)
         then \<exists>t'. detect_cols w h buf y x t = Inr t' \<and> planes buf (h * w) (y * w + w) t'
         else y * w + x \<le> int (length buf) \<longrightarrow> detect_cols w h buf y x t = Inl (UB OutOfBounds)"
  using assms
proof (induction "nat (w - x)" arbitrary: x t)
  case 0
  then have "x = w" by simp
  with 0 show ?case by (subst detect_cols.simps) simp
next
  case (Suc m)
  then have xw: "x < w" by simp
  let ?k = "y * w + x"
  let ?t = "t[nat ?k := div255 (red_of (buf ! nat ?k)),
              nat (h * w + ?k) := div255 (green_of (buf ! nat ?k)),
              nat (2 * (h * w) + ?k) := div255 (blue_of (buf ! nat ?k))]"
  have len: "int (length t) = 3 * (h * w)" using Suc.prems by (simp add: planes_def)
  have b: "0 \<le> y * w" "?k < h * w"
    using pixel_index_bound [OF Suc.prems(1,2,3) xw] by simp_all
  show ?case
  proof (cases "?k < int (length buf)")
    case False
    then have "detect_cols w h buf y x t = Inl (UB OutOfBounds)"
      using Suc.prems xw by (intro detect_cols_past_end) simp_all
    moreover have "\<not> y * w + w \<le> int (length buf)" using False xw by simp
    ultimately show ?thesis by simp
  next
    case True
    have step: "detect_cols w h buf y x t = detect_cols w h buf y (x + 1) ?t"
      using Suc.prems xw len True by (intro detect_cols_step) simp_all
    have "planes buf (h * w) (?k + 1) ?t"
      using Suc.prems b by (intro planes_step) simp_all
    then have p: "planes buf (h * w) (y * w + (x + 1)) ?t" by (simp add: add.assoc)
    have m: "m = nat (w - (x + 1))" using Suc.hyps(2) by simp
    have ih: "if y * w + w \<le> int (length buf)
         then \<exists>t'. detect_cols w h buf y (x + 1) ?t = Inr t' \<and> planes buf (h * w) (y * w + w) t'
         else y * w + (x + 1) \<le> int (length buf) \<longrightarrow>
              detect_cols w h buf y (x + 1) ?t = Inl (UB OutOfBounds)"
      using Suc.prems(1,2,3,5,6) xw p by (intro Suc.hyps(1) [OF m]) simp_all
    show ?thesis using ih step True by (simp split: if_splits)
  qed
qed

lemma detect_rows_planes:
  assumes "0 \<le> y" "y \<le> h" "0 \<le> w"
    and "3 * h \<le> INT_MAX" "3 * (h * w) \<le> INT_MAX" "h * w \<le> int (length buf)"
    and "planes buf (h * w) (y * w) t"
  shows "\<exists>t'. detect_rows w h buf y t = Inr t' \<and> planes buf (h * w) (h * w) t'"
  using assms
proof (induction "nat (h - y)" arbitrary: y t)
  case 0
  then have "y = h" by simp
  with 0 show ?case by (subst detect_rows.simps) simp
next
  case (Suc m)
  then have yh: "y < h" by simp
  have "(y + 1) * w \<le> h * w" using yh Suc.prems by (intro mult_right_mono) simp_all
  then have fit: "y * w + w \<le> int (length buf)" using Suc.prems by (simp add: algebra_simps)
  have "planes buf (h * w) (y * w + 0) t" using Suc.prems by simp
  then obtain t1 where t1: "detect_cols w h buf y 0 t = Inr t1"
      "planes buf (h * w) (y * w + w) t1"
    using detect_cols_planes [OF Suc.prems(1) yh _ _ Suc.prems(4,5), where x = 0 and t = t and buf = buf]
      Suc.prems(3) fit
    by auto
  have "planes buf (h * w) ((y + 1) * w) t1" using t1(2) by (simp add: algebra_simps)
  then have "\<exists>t'. detect_rows w h buf (y + 1) t1 = Inr t' \<and> planes buf (h * w) (h * w) t'"
    using Suc.hyps(2) Suc.prems yh by (intro Suc.hyps(1)) simp_all
  with t1(1) yh show ?case by (subst detect_rows.simps) simp
qed

lemma detect_rows_past_end:
  assumes "0 \<le> y" "y \<le> h" "0 \<le> w"
    and "3 * h \<le> INT_MAX" "3 * (h * w) \<le> INT_MAX"
    and "y * w \<le> int (length buf)" "int (length buf) < h * w"
    and "planes buf (h * w) (y * w) t"
  shows "detect_rows w h buf y t = Inl (UB OutOfBounds)"
  using assms
proof (induction "nat (h - y)" arbitrary: y t)
  case 0
  then have "y = h" by simp
  with 0 show ?case by simp
next
  case (Suc m)
  then have yh: "y < h" by simp
  have p0: "planes buf (h * w) (y * w + 0) t" using Suc.prems by simp
  have cols: "if y * w + w \<le> int (length buf)
         then \<exists>t'. detect_cols w h buf y 0 t = Inr t' \<and> planes buf (h * w) (y * w + w) t'
         else y * w + 0 \<le> int (length buf) \<longrightarrow> detect_cols w h buf y 0 t = Inl (UB OutOfBounds)"
    using Suc.prems(3) by (intro detect_cols_planes [OF Suc.prems(1) yh _ _ Suc.prems(4,5) p0]) simp_all
  show ?case
  proof (cases "y * w + w \<le> int (length buf)")
    case False
    then have "detect_cols w h buf y 0 t = Inl (UB OutOfBounds)"
      using cols Suc.prems by simp
    with yh show ?thesis by (subst detect_rows.simps) simp
  next
    case True
    then obtain t1 where t1: "detect_cols w h buf y 0 t = Inr t1"
      "planes buf (h * w) (y * w + w) t1"
      using cols Suc.prems(3) by auto
    have p: "planes buf (h * w) ((y + 1) * w) t1" using t1(2) by (simp add: algebra_simps)
    have "detect_rows w h buf (y + 1) t1 = Inl (UB OutOfBounds)"
      using Suc.hyps(2) Suc.prems yh True p
      by (intro Suc.hyps(1)) (simp_all add: algebra_simps)
    with t1(1) yh show ?thesis by (subst detect_rows.simps) simp
  qed
qed


lemma detect_encode_planes:
  assumes "0 \<le> w" "0 \<le> h" "3 * h \<le> INT_MAX" "3 * (h * w) \<le> INT_MAX"
    and "h * w \<le> int (length buf)"
  shows "\<exists>t. detect_encode w h buf = Inr t \<and> planes buf (h * w) (h * w) t"
proof -
  have n: "0 \<le> h * w" using assms by simp
  have "int_ok (3 * h)" using assms by (simp add: int_ok_def INT_MIN_def)
  moreover have "int_ok (3 * (h * w)) \<and> \<not> 3 * (h * w) < 0"
    using assms(4) n unfolding int_ok_def INT_MIN_def by linarith
  ultimately have ok: "int_ok (3 * h)" "int_ok (3 * h * w)" "\<not> 3 * h * w < 0"
    by (simp_all add: mult.assoc)
  have "planes buf (h * w) (0 * w) (replicate (nat (3 * h * w)) 0)"
    using n by (simp add: planes_def mult.assoc)
  then have "\<exists>t. detect_rows w h buf 0 (replicate (nat (3 * h * w)) 0) = Inr t \<and>
               planes buf (h * w) (h * w) t"
    using assms by (intro detect_rows_planes) simp_all
  then show ?thesis using ok by (simp add: detect_encode_def)
qed

lemma detect_encode_past_end:
  assumes "0 \<le> w" "0 \<le> h" "3 * h \<le> INT_MAX" "3 * (h * w) \<le> INT_MAX"
    and "int (length buf) < h * w"
  shows "detect_encode w h buf = Inl (UB OutOfBounds)"
proof -
  have n: "0 \<le> h * w" using assms by simp
  have "int_ok (3 * h)" using assms by (simp add: int_ok_def INT_MIN_def)
  moreover have "int_ok (3 * (h * w)) \<and> \<not> 3 * (h * w) < 0"
    using assms(4) n unfolding int_ok_def INT_MIN_def by linarith
  ultimately have ok: "int_ok (3 * h)" "int_ok (3 * h * w)" "\<not> 3 * h * w < 0"
    by (simp_all add: mult.assoc)
  have "planes buf (h * w) (0 * w) (replicate (nat (3 * h * w)) 0)"
    using n by (simp add: planes_def mult.assoc)
  then have "detect_rows w h buf 0 (replicate (nat (3 * h * w)) 0) = Inl (UB OutOfBounds)"
    using assms by (intro detect_rows_past_end) simp_all
  then show ?thesis using ok by (simp add: detect_encode_def)
qed

lemma planes_nth:
  fixes W H :: nat
  assumes "planes buf (int H * int W) (int H * int W) t" "p < H * W"
  shows "t ! p = div255 (red_of (buf ! p))"
    and "t ! (H * W + p) = div255 (green_of (buf ! p))"
    and "t ! (2 * (H * W) + p) = div255 (blue_of (buf ! p))"
proof -
  have p: "0 \<le> int p \<and> int p < int H * int W"
    using assms(2) by (simp flip: of_nat_mult)
  have a: "nat (int H * int W + int p) = H * W + p"
    by (simp flip: of_nat_mult of_nat_add)
  have b: "nat (2 * (int H * int W) + int p) = 2 * (H * W) + p"
    by (simp add: nat_add_distrib nat_mult_distrib)
  from assms(1) p have
    "t ! nat (int p) = div255 (red_of (buf ! nat (int p))) \<and>
     t ! nat (int H * int W + int p) = div255 (green_of (buf ! nat (int p))) \<and>
     t ! nat (2 * (int H * int W) + int p) = div255 (blue_of (buf ! nat (int p)))"
    unfolding planes_def by blast
  then show "t ! p = div255 (red_of (buf ! p))"
    and "t ! (H * W + p) = div255 (green_of (buf ! p))"
    and "t ! (2 * (H * W) + p) = div255 (blue_of (buf ! p))"
    by (simp_all add: a b)
qed

lemma nat_pixel_bound:
  fixes W H x y :: nat
  assumes "y < H" "x < W"
  shows "y * W + x < H * W"
proof -
  have "y * W + x < y * W + W" using assms by simp
  also have "\<dots> = (y + 1) * W" by simp
  also have "\<dots> \<le> H * W" using assms by (intro mult_le_mono1) simp
  finally show ?thesis .
qed

text \<open>
  Claim C1, as amended. For every image of width \<open>W\<close> and height \<open>H\<close> such that
  \<open>3 * H\<close> and \<open>3 * H * W\<close> do not exceed \<open>INT_MAX\<close> (the source computes the size of
  the tensor in \<^verbatim>\<open>int\<close>), and every pixel buffer of at least \<open>W * H\<close> words, the
  encoder returns a buffer of exactly \<open>3 * H * W\<close> elements in planar order: for the
  pixel at row \<open>y\<close> and column \<open>x\<close>, plane 0 holds at offset \<open>y * W + x\<close> the red byte
  of the pixel word (bits 16 to 23) divided by 255, plane 1 the green byte (bits 8 to
  15) divided by 255, and plane 2 the blue byte (bits 0 to 7) divided by 255. Every
  element lies between 0 and 1.
\<close>

theorem tensor_encoder_planar:
  fixes W H :: nat
  assumes "3 * int H \<le> INT_MAX" "3 * int H * int W \<le> INT_MAX" "W * H \<le> length buf"
  shows "\<exists>t. detect_encode (int W) (int H) buf = Inr t \<and> length t = 3 * H * W \<and>
     (\<forall>y<H. \<forall>x<W.
        t ! (0 * H * W + (y * W + x)) = real (unat (buf ! (y * W + x)) div 2 ^ 16 mod 2 ^ 8) / 255 \<and>
        t ! (1 * H * W + (y * W + x)) = real (unat (buf ! (y * W + x)) div 2 ^ 8 mod 2 ^ 8) / 255 \<and>
        t ! (2 * H * W + (y * W + x)) = real (unat (buf ! (y * W + x)) mod 2 ^ 8) / 255) \<and>
     (\<forall>i<length t. 0 \<le> t ! i \<and> t ! i \<le> 1)"
proof -
  have fit: "int H * int W \<le> int (length buf)"
    using assms(3) by (simp flip: of_nat_mult add: mult.commute)
  obtain t where t: "detect_encode (int W) (int H) buf = Inr t"
      "planes buf (int H * int W) (int H * int W) t"
    using detect_encode_planes [of "int W" "int H" buf] assms(1,2) fit
    by (auto simp: mult.assoc)
  have "int (length t) = int (3 * H * W)" using t(2) by (simp add: planes_def)
  then have len: "length t = 3 * H * W" by (simp only: of_nat_eq_iff)
  have px: "t ! (0 * H * W + (y * W + x)) = real (unat (buf ! (y * W + x)) div 2 ^ 16 mod 2 ^ 8) / 255 \<and>
        t ! (1 * H * W + (y * W + x)) = real (unat (buf ! (y * W + x)) div 2 ^ 8 mod 2 ^ 8) / 255 \<and>
        t ! (2 * H * W + (y * W + x)) = real (unat (buf ! (y * W + x)) mod 2 ^ 8) / 255"
    if "y < H" "x < W" for y x
    using planes_nth [OF t(2) nat_pixel_bound [OF that]]
    by (simp add: div255_def red_of_unat green_of_unat blue_of_unat mult.assoc)
  have rng: "0 \<le> t ! i \<and> t ! i \<le> 1" if "i < length t" for i
  proof -
    have il: "i < 3 * (H * W)" using that len by simp
    consider "i < H * W" | "H * W \<le> i" "i < 2 * (H * W)" | "2 * (H * W) \<le> i" "i < 3 * (H * W)"
      using il by linarith
    then show ?thesis
    proof cases
      case 1
      then show ?thesis using planes_nth(1) [OF t(2), of i] div255_range by simp
    next
      case 2
      then have "i - H * W < H * W" by simp
      then have "t ! (H * W + (i - H * W)) = div255 (green_of (buf ! (i - H * W)))"
        by (rule planes_nth(2) [OF t(2)])
      then show ?thesis using 2 div255_range by simp
    next
      case 3
      then have "i - 2 * (H * W) < H * W" by simp
      then have "t ! (2 * (H * W) + (i - 2 * (H * W))) = div255 (blue_of (buf ! (i - 2 * (H * W))))"
        by (rule planes_nth(3) [OF t(2)])
      then show ?thesis using 3 div255_range by simp
    qed
  qed
  from t(1) len px rng show ?thesis by blast
qed

text \<open>
  The theorem on a one-row image of two pixels, \<^verbatim>\<open>0x11223344\<close> and
  \<^verbatim>\<open>0xFF00FF80\<close>.
\<close>

theorem tensor_encoder_planar_witness:
  "\<exists>t. detect_encode 2 1 [0x11223344, 0xFF00FF80] = Inr t \<and> length t = 6 \<and>
       t ! 0 = 34 / 255 \<and> t ! 1 = 0 \<and> t ! 2 = 51 / 255 \<and> t ! 3 = 1 \<and>
       t ! 4 = 68 / 255 \<and> t ! 5 = 128 / 255"
proof -
  let ?buf = "[0x11223344, 0xFF00FF80] :: 32 word list"
  have h: "3 * int 1 \<le> INT_MAX" "3 * int 1 * int 2 \<le> INT_MAX" "2 * 1 \<le> length ?buf"
    by (simp_all add: INT_MAX_def)
  from tensor_encoder_planar [OF h] obtain t where
    t: "detect_encode (int 2) (int 1) ?buf = Inr t" "length t = 3 * 1 * 2" and
    px: "\<And>y x. y < 1 \<Longrightarrow> x < 2 \<Longrightarrow>
        t ! (0 * 1 * 2 + (y * 2 + x)) =
          real (unat (?buf ! (y * 2 + x)) div 2 ^ 16 mod 2 ^ 8) / 255 \<and>
        t ! (1 * 1 * 2 + (y * 2 + x)) =
          real (unat (?buf ! (y * 2 + x)) div 2 ^ 8 mod 2 ^ 8) / 255 \<and>
        t ! (2 * 1 * 2 + (y * 2 + x)) =
          real (unat (?buf ! (y * 2 + x)) mod 2 ^ 8) / 255"
    by blast
  from px [of 0 0] px [of 0 1] t show ?thesis by simp
qed

text \<open>
  Without the bound the claim fails: for a square image of side 26755 the product
  \<open>3 * 26755 * 26755 = 2147490075\<close> is beyond \<open>INT_MAX\<close>, whatever the buffer holds.
\<close>

theorem tensor_encoder_overflow_counterexample:
  "26755 * 26755 \<le> length (replicate 715830025 (0 :: 32 word)) \<and>
   detect_encode 26755 26755 (replicate 715830025 0) = Inl (UB SignedOverflow)"
  by (simp add: detect_encode_def int_ok_def INT_MAX_def INT_MIN_def)

text \<open>
  Claim C5, as amended. The encoder has no encoding error and never looks at the
  size of the buffer. For \<open>3 * H\<close> and \<open>3 * H * W\<close> within \<open>INT_MAX\<close>: it succeeds
  exactly when the buffer holds at least \<open>W * H\<close> words and it never throws; on a
  smaller buffer it reads past the end of the buffer, which is undefined behaviour
  and not an error that is raised.
\<close>

theorem encoder_buffer_size:
  fixes W H :: nat
  assumes "3 * int H \<le> INT_MAX" "3 * int H * int W \<le> INT_MAX"
  shows "((\<exists>t. detect_encode (int W) (int H) buf = Inr t) \<longleftrightarrow> W * H \<le> length buf) \<and>
         (length buf < W * H \<longrightarrow> detect_encode (int W) (int H) buf = Inl (UB OutOfBounds)) \<and>
         (\<forall>e. detect_encode (int W) (int H) buf \<noteq> Inl (Thrown e))"
proof (cases "W * H \<le> length buf")
  case True
  then have "int H * int W \<le> int (length buf)"
    by (simp flip: of_nat_mult add: mult.commute)
  then have "\<exists>t. detect_encode (int W) (int H) buf = Inr t \<and>
                 planes buf (int H * int W) (int H * int W) t"
    using assms by (intro detect_encode_planes) (simp_all add: mult.assoc)
  with True show ?thesis by auto
next
  case False
  then have "int (length buf) < int H * int W"
    by (simp flip: of_nat_mult add: mult.commute)
  then have "detect_encode (int W) (int H) buf = Inl (UB OutOfBounds)"
    using assms by (intro detect_encode_past_end) (simp_all add: mult.assoc)
  with False show ?thesis by simp
qed

theorem encoder_buffer_size_witness:
  "(\<exists>t. detect_encode 1 1 [0x11223344] = Inr t) \<and>
   detect_encode 2 1 [0x11223344] = Inl (UB OutOfBounds)"
proof -
  have a: "3 * int 1 \<le> INT_MAX" "3 * int 1 * int 1 \<le> INT_MAX" "3 * int 1 * int 2 \<le> INT_MAX"
    by (simp_all add: INT_MAX_def)
  from encoder_buffer_size [OF a(1,2), of "[0x11223344]"]
       encoder_buffer_size [OF a(1,3), of "[0x11223344]"]
  show ?thesis by simp
qed

text \<open>
  The claim as stated fails on a one-pixel image with an empty buffer: nothing is
  raised, the read of \<^verbatim>\<open>rgbaPixels[0]\<close> is past the end.
\<close>

theorem encoder_short_buffer_counterexample:
  "length ([] :: 32 word list) < 1 * 1 \<and> detect_encode 1 1 [] = Inl (UB OutOfBounds)"
  by (simp add: detect_encode_def int_ok_def INT_MAX_def INT_MIN_def detect_rows.simps
      detect_cols.simps load_at_def)

text \<open>The two copies of the conversion compute the same function.\<close>

lemma recognize_cols_eq: "recognize_cols w h buf y x t = detect_cols w h buf y x t"
proof (induction w h buf y x t rule: detect_cols.induct)
  case (1 width height rgbaPixels y x inputTensor)
  show ?case
    apply (subst recognize_cols.simps)
    apply (subst detect_cols.simps)
    using 1
    apply (auto simp: Let_def split: sum.splits)
    done
qed

lemma recognize_rows_eq: "recognize_rows w h buf y t = detect_rows w h buf y t"
proof (induction w h buf y t rule: detect_rows.induct)
  case (1 width height rgbaPixels y inputTensor)
  show ?case
    apply (subst recognize_rows.simps)
    apply (subst detect_rows.simps)
    using 1
    apply (auto simp: recognize_cols_eq split: sum.splits)
    done
qed

lemma six_zeros: "replicate 6 (0 :: real) = [0, 0, 0, 0, 0, 0]"
  by (simp add: numeral_eq_Suc)

text \<open>
  Claim C10. The conversion inside \<^verbatim>\<open>nativeRecognizeText\<close> and the one inside
  \<^verbatim>\<open>nativeDetectText\<close> are the same function: on every width, height and pixel
  buffer both give the same result, element for element (and the same fault where
  there is one).
\<close>

theorem encoders_agree:
  "recognize_encode width height rgbaPixels = detect_encode width height rgbaPixels"
  by (simp add: recognize_encode_def detect_encode_def recognize_rows_eq)

theorem encoders_agree_witness:
  "recognize_encode 2 1 [0x11223344, 0xFF00FF80] = detect_encode 2 1 [0x11223344, 0xFF00FF80] \<and>
   recognize_encode 2 1 [0x11223344, 0xFF00FF80] =
     Inr [34 / 255, 0, 51 / 255, 1, 68 / 255, 128 / 255]"
proof -
  have "detect_encode 2 1 [0x11223344, 0xFF00FF80] =
          Inr [34 / 255, 0, 51 / 255, 1, 68 / 255, 128 / 255]"
    by (simp add: encode_eval six_zeros)
  with encoders_agree [of 2 1 "[0x11223344, 0xFF00FF80]"] show ?thesis by simp
qed

subsection \<open>The detection decoder\<close>

lemma decode_feats_take:
  fixes F i j :: nat
  assumes "j \<le> F" "i * F + F \<le> length dat" "int (i * F + F) \<le> INT_MAX"
  shows "decode_feats (int F) dat (int i) (int j) det =
         Inr (det @ take (F - j) (drop (i * F + j) dat))"
  using assms(1)
proof (induction "F - j" arbitrary: j det)
  case 0
  then have "j = F" by simp
  then show ?case by (subst decode_feats.simps) simp
next
  case (Suc m)
  then have jF: "j < F" by simp
  let ?k = "i * F + j"
  have k: "?k < length dat" using jF assms(2) by simp
  have idx: "int i * int F + int j = int ?k" by simp
  have "int ?k \<le> int (i * F + F)" using jF by (intro of_nat_mono) simp
  moreover have "(0::int) \<le> int (i * F)" "int (i * F) \<le> int ?k"
    by (rule of_nat_0_le_iff, intro of_nat_mono) simp
  ultimately have "int_ok (int (i * F)) \<and> int_ok (int ?k)"
    using assms(3) unfolding int_ok_def INT_MIN_def INT_MAX_def by linarith
  then have ok: "int_ok (int i * int F)" "int_ok (int i * int F + int j)"
    by simp_all
  have ld: "load_at dat (int i * int F + int j) = Inr (dat ! ?k)"
    using k unfolding idx load_at_def by (simp del: of_nat_add of_nat_mult)
  have step: "decode_feats (int F) dat (int i) (int j) det =
              decode_feats (int F) dat (int i) (int (Suc j)) (det @ [dat ! ?k])"
    using jF ok ld
    by (subst decode_feats.simps) (simp add: add.commute)
  have "decode_feats (int F) dat (int i) (int (Suc j)) (det @ [dat ! ?k]) =
        Inr ((det @ [dat ! ?k]) @ take (F - Suc j) (drop (i * F + Suc j) dat))"
    using Suc.hyps(2) jF by (intro Suc.hyps(1)) simp_all
  moreover have "take (F - j) (drop ?k dat) = dat ! ?k # take (F - Suc j) (drop (Suc ?k) dat)"
  proof -
    have "drop ?k dat = dat ! ?k # drop (Suc ?k) dat"
      using k by (simp add: Cons_nth_drop_Suc)
    moreover have "F - j = Suc (F - Suc j)" using jF by simp
    ultimately show ?thesis by simp
  qed
  ultimately show ?case using step by simp
qed

lemma decode_dets_filter:
  fixes N F i :: nat
  assumes "i \<le> N" "N * F \<le> length dat" "int (N * F) \<le> INT_MAX"
  shows "decode_dets (int N) (int F) dat (int i) dets =
         Inr (dets @ filter (\<lambda>d. length d > 8 \<and> d ! 8 > 0.5)
                (map (\<lambda>k. take F (drop (k * F) dat)) [i..<N]))"
  using assms(1)
proof (induction "N - i" arbitrary: i dets)
  case 0
  then have "i = N" by simp
  then show ?case by (subst decode_dets.simps) simp
next
  case (Suc m)
  then have iN: "i < N" by simp
  define P where "P = (\<lambda>d :: real list. length d > 8 \<and> d ! 8 > 0.5)"
  define row where "row = (\<lambda>k. take F (drop (k * F) dat))"
  define dets' where "dets' = (if P (row i) then dets @ [row i] else dets)"
  have "(i + 1) * F \<le> N * F" using iN by (intro mult_le_mono1) simp
  then have b: "i * F + F \<le> N * F" by simp
  have "int (i * F + F) \<le> int (N * F)" using b by (intro of_nat_mono)
  then have "int (i * F + F) \<le> INT_MAX" using assms(3) by linarith
  then have "decode_feats (int F) dat (int i) (int 0) [] =
             Inr ([] @ take (F - 0) (drop (i * F + 0) dat))"
    using b assms(2) by (intro decode_feats_take) simp_all
  then have feats: "decode_feats (int F) dat (int i) 0 [] = Inr (row i)"
    by (simp add: row_def)
  have step: "decode_dets (int N) (int F) dat (int i) dets =
              decode_dets (int N) (int F) dat (int (Suc i)) dets'"
    using iN feats
    by (subst decode_dets.simps) (simp add: add.commute dets'_def P_def)
  have "decode_dets (int N) (int F) dat (int (Suc i)) dets' =
        Inr (dets' @ filter (\<lambda>d. length d > 8 \<and> d ! 8 > 0.5)
                (map (\<lambda>k. take F (drop (k * F) dat)) [Suc i..<N]))"
    using Suc.hyps(2) iN by (intro Suc.hyps(1)) simp_all
  then have ih: "decode_dets (int N) (int F) dat (int (Suc i)) dets' =
        Inr (dets' @ filter P (map row [Suc i..<N]))"
    by (simp only: P_def row_def)
  have "[i..<N] = i # [Suc i..<N]" using iN by (simp add: upt_conv_Cons)
  then have "dets @ filter P (map row [i..<N]) = dets' @ filter P (map row [Suc i..<N])"
    by (simp add: dets'_def)
  then have "decode_dets (int N) (int F) dat (int i) dets =
             Inr (dets @ filter P (map row [i..<N]))"
    using step ih by simp
  then show ?case by (simp only: P_def row_def)
qed

lemma int_of_int64_small: "0 \<le> v \<Longrightarrow> v \<le> INT_MAX \<Longrightarrow> int_of_int64 v = v"
  by (simp add: int_of_int64_def INT_MAX_def)

text \<open>
  Claim C2, as amended. For every detection output tensor of shape \<open>(1, N, F)\<close> with
  \<open>N\<close>, \<open>F\<close> and \<open>N * F\<close> at most \<open>INT_MAX\<close> (the source reads both dimensions into
  \<^verbatim>\<open>int\<close> and indexes with \<^verbatim>\<open>int\<close>), the decoder returns exactly those rows, each
  as its \<open>F\<close> values in order, for which \<open>F > 8\<close> and the value at position 8 is
  strictly greater than 0.5, in the original row order.
\<close>

theorem detection_decoder_rows:
  fixes N F :: nat
  assumes "int N \<le> INT_MAX" "int F \<le> INT_MAX" "int N * int F \<le> INT_MAX"
    and "length outputData = N * F"
  shows "detection_decode [1, int N, int F] outputData =
         Inr (filter (\<lambda>row. 8 < F \<and> row ! 8 > 0.5)
                (map (\<lambda>i. take F (drop (i * F) outputData)) [0..<N]))"
proof -
  have len: "length (take F (drop (i * F) outputData)) = F" if "i < N" for i
  proof -
    have "(i + 1) * F \<le> N * F" using that by (intro mult_le_mono1) simp
    then show ?thesis using assms(4) by simp
  qed
  have "filter (\<lambda>d. length d > 8 \<and> d ! 8 > 0.5)
          (map (\<lambda>k. take F (drop (k * F) outputData)) [0..<N]) =
        filter (\<lambda>row. 8 < F \<and> row ! 8 > 0.5)
          (map (\<lambda>i. take F (drop (i * F) outputData)) [0..<N])"
  proof (rule filter_cong)
    fix d assume "d \<in> set (map (\<lambda>i. take F (drop (i * F) outputData)) [0..<N])"
    then obtain i where "i < N" "d = take F (drop (i * F) outputData)" by auto
    then have "length d = F" using len by simp
    then show "(length d > 8 \<and> d ! 8 > 0.5) = (8 < F \<and> d ! 8 > 0.5)" by simp
  qed simp
  moreover have "decode_dets (int N) (int F) outputData (int 0) [] =
         Inr ([] @ filter (\<lambda>d. length d > 8 \<and> d ! 8 > 0.5)
                (map (\<lambda>k. take F (drop (k * F) outputData)) [0..<N]))"
    using assms by (intro decode_dets_filter) simp_all
  ultimately show ?thesis
    using assms(1,2) by (simp add: detection_decode_def int_of_int64_small Let_def)
qed

text \<open>
  The theorem on the tensor of shape \<open>(1, 3, 9)\<close> whose rows have the confidences
  0.9, 0.4 and 0.5001: the first and the third row are returned, in that order.
\<close>

theorem detection_decoder_rows_witness:
  "detection_decode [1, 3, 9]
     [1, 2, 3, 4, 5, 6, 7, 8, 0.9,
      11, 12, 13, 14, 15, 16, 17, 18, 0.4,
      21, 22, 23, 24, 25, 26, 27, 28, 0.5001] =
   Inr [[1, 2, 3, 4, 5, 6, 7, 8, 0.9], [21, 22, 23, 24, 25, 26, 27, 28, 0.5001]]"
proof -
  let ?d = "[1, 2, 3, 4, 5, 6, 7, 8, 0.9,
      11, 12, 13, 14, 15, 16, 17, 18, 0.4,
      21, 22, 23, 24, 25, 26, 27, 28, 0.5001] :: real list"
  have h: "int 3 \<le> INT_MAX" "int 9 \<le> INT_MAX" "int 3 * int 9 \<le> INT_MAX" "length ?d = 3 * 9"
    by (simp_all add: INT_MAX_def)
  have u: "[0..<3] = [0, 1, 2]" by (simp add: upt_rec)
  from detection_decoder_rows [OF h] show ?thesis by (simp add: u)
qed

text \<open>
  Without the bound the claim fails: a single row of \<open>2 ^ 32\<close> features, all 1, has
  \<open>F > 8\<close> and 1 at position 8, but \<^verbatim>\<open>int featDim = outputShape[2]\<close> is 0 and the row
  is dropped.
\<close>

theorem detection_decoder_wide_counterexample:
  "length (replicate 4294967296 (1 :: real)) = 1 * 4294967296 \<and>
   (8 :: nat) < 4294967296 \<and> replicate 4294967296 (1 :: real) ! 8 > 0.5 \<and>
   detection_decode [1, 1, 4294967296] (replicate 4294967296 1) = Inr []"
  by (simp add: detection_decode_def int_of_int64_def decode_dets.simps decode_feats.simps)

text \<open>A row whose confidence is exactly 0.5 is dropped.\<close>

lemma detection_decoder_threshold:
  "detection_decode [1, 1, 9] [1, 2, 3, 4, 5, 6, 7, 8, 0.5] = Inr []"
  by (simp add: detection_decode_def int_of_int64_def decode_dets.simps decode_feats.simps
      int_ok_def INT_MAX_def INT_MIN_def load_at_def)

text \<open>
  Claim C7. For every detection output tensor with at least three shape dimensions
  and \<open>N = 0\<close> rows, the decoder returns the empty sequence and no fault.
\<close>

theorem detection_decoder_no_rows:
  assumes "3 \<le> length outputShape" "outputShape ! 1 = 0"
  shows "detection_decode outputShape outputData = Inr []"
  using assms
  by (simp add: detection_decode_def int_of_int64_def Let_def decode_dets.simps)

theorem detection_decoder_no_rows_witness:
  "3 \<le> length [1, 0, 9 :: int] \<and> [1, 0, 9 :: int] ! 1 = 0 \<and>
   detection_decode [1, 0, 9] [] = Inr []"
proof -
  have h: "3 \<le> length [1, 0, 9 :: int]" "[1, 0, 9 :: int] ! 1 = 0" by simp_all
  from detection_decoder_no_rows [OF h] h show ?thesis by simp
qed

text \<open>
  Through the whole of \<^verbatim>\<open>nativeDetectText\<close>: a session that answers with a tensor
  of shape \<open>(1, 0, 9)\<close> gives an empty array, not \<^verbatim>\<open>nullptr\<close>.
\<close>

lemma nativeDetectText_no_rows:
  "nativeDetectText ready_world 1 two_pixels =
     Inr (Some [], ready_world\<lparr>events := [LockPixels, UnlockPixels, SessionRun 2]\<rparr>)"
  by (simp add: nativeDetectText_def detect_try_def ready_world_def two_pixels_def
      emit_def answering_session_def detection_decode_def int_of_int64_def
      decode_dets.simps encode_eval)

subsection \<open>The recognition decoder\<close>

text \<open>
  Claim C3 does not hold of the source. On the index sequence
  \<open>[4, 4, 0, 7, 7, 7, 1]\<close> with blank index 0 the greedy decode of the specification is
  the concatenation of the vocabulary entries 4, 7 and 1 (\<open>''360''\<close> for the digit
  vocabulary), while the source returns its placeholder \<open>''123456''\<close> whatever the
  session's output is.
\<close>

theorem recognition_decode_ignores_output:
  "recognition_decode [\<lparr>tensor_shape = [1, 7], tensor_data = [4, 4, 0, 7, 7, 7, 1]\<rparr>]
     = ''123456'' \<and>
   spec_greedy_decode 0 digit_vocabulary [4, 4, 0, 7, 7, 7, 1] =
     digit_vocabulary ! 4 @ digit_vocabulary ! 7 @ digit_vocabulary ! 1 \<and>
   spec_greedy_decode 0 digit_vocabulary [4, 4, 0, 7, 7, 7, 1] = ''360'' \<and>
   recognition_decode [\<lparr>tensor_shape = [1, 7], tensor_data = [4, 4, 0, 7, 7, 7, 1]\<rparr>] \<noteq>
     spec_greedy_decode 0 digit_vocabulary [4, 4, 0, 7, 7, 7, 1]"
  by (simp add: recognition_decode_def spec_greedy_decode_def digit_vocabulary_def)

text \<open>
  Claim C9. Whenever \<^verbatim>\<open>nativeRecognizeText\<close> returns a string, the string is
  \<open>''123456''\<close>: for one handle, any two images and any two worlds (so any two
  recognition sessions and output tensors), the two results are that same constant.
\<close>

theorem recognize_returns_placeholder:
  assumes "nativeRecognizeText w handle b1 = Inr (Some s1, w1)"
    and "nativeRecognizeText w' handle b2 = Inr (Some s2, w2)"
  shows "s1 = ''123456'' \<and> s2 = s1"
  using assms
  by (auto simp: nativeRecognizeText_def recognize_try_def recognition_decode_def Let_def
      split: if_splits sum.splits option.splits prod.splits fault.splits)

theorem recognize_returns_placeholder_witness:
  "nativeRecognizeText ready_world 1 one_pixel =
     Inr (Some ''123456'', ready_world\<lparr>events := [LockPixels, UnlockPixels, SessionRun 4]\<rparr>) \<and>
   nativeRecognizeText ready_world 1 two_pixels =
     Inr (Some ''123456'', ready_world\<lparr>events := [LockPixels, UnlockPixels, SessionRun 4]\<rparr>)"
proof -
  let ?w = "ready_world\<lparr>events := [LockPixels, UnlockPixels, SessionRun 4]\<rparr>"
  obtain s1 where r1: "nativeRecognizeText ready_world 1 one_pixel = Inr (Some s1, ?w)"
    by (simp add: nativeRecognizeText_def recognize_try_def ready_world_def one_pixel_def
        emit_def answering_session_def encode_eval)
  obtain s2 where r2: "nativeRecognizeText ready_world 1 two_pixels = Inr (Some s2, ?w)"
    by (simp add: nativeRecognizeText_def recognize_try_def ready_world_def two_pixels_def
        emit_def answering_session_def encode_eval)
  from recognize_returns_placeholder [OF r1 r2] r1 r2 show ?thesis by simp
qed

subsection \<open>Initialisation\<close>

text \<open>When a load throws, \<^verbatim>\<open>nativeInit\<close> returns the null handle.\<close>

lemma nativeInit_failure_null:
  assumes "load detPath = Inl e \<or> load clsPath = Inl e \<or> load recPath = Inl e"
  shows "fst (nativeInit load w detPath clsPath recPath) = 0"
  using assms
  by (auto simp: nativeInit_def new_OCRHandle_def new_Session_def Let_def
      split: sum.splits prod.splits)

text \<open>When the three loads succeed, the handle is not null and owns the three sessions.\<close>

lemma nativeInit_success:
  assumes "load detPath = Inr d" "load clsPath = Inr c" "load recPath = Inr r"
    and "nativeInit load w detPath clsPath recPath = (handle, w')"
  shows "handle = next_addr w + 1 \<and>
         ocr_handles w' handle =
           Some \<lparr>detSession = next_addr w + 2, clsSession = next_addr w + 3,
                 recSession = next_addr w + 4\<rparr> \<and>
         ort_sessions w' (next_addr w + 2) = Some d \<and>
         ort_sessions w' (next_addr w + 3) = Some c \<and>
         ort_sessions w' (next_addr w + 4) = Some r"
  using assms
  by (auto simp: nativeInit_def new_OCRHandle_def new_Session_def assign_handle_def Let_def
      split: sum.splits prod.splits)

text \<open>
  When the detection model loads and the classification model does not, the handler
  returns 0 and leaves both the detection session and the handle object allocated.
\<close>

lemma nativeInit_leak:
  assumes "load detPath = Inr d" "load clsPath = Inl e"
    and "nativeInit load w detPath clsPath recPath = (handle, w')"
  shows "handle = 0 \<and> ort_sessions w' (next_addr w + 2) = Some d \<and>
         ocr_handles w' (next_addr w + 1) =
           Some \<lparr>detSession = next_addr w + 2, clsSession = 0, recSession = 0\<rparr>"
  using assms
  by (auto simp: nativeInit_def new_OCRHandle_def new_Session_def assign_handle_def Let_def
      split: sum.splits prod.splits)

text \<open>\<^verbatim>\<open>nativeDispose\<close> is the path that does release the sessions and the handle.\<close>

lemma nativeDispose_releases:
  "nativeDispose ready_world 1 =
     Inr (ready_world\<lparr>ocr_handles := Map.empty, ort_sessions := Map.empty\<rparr>)"
  by (simp add: nativeDispose_def delete_Session_def ready_world_def fun_upd_twist)

text \<open>
  Claim C4 does not hold of the source. With a detection model that loads and a
  classification model that does not, \<^verbatim>\<open>nativeInit\<close> returns the null handle, so no
  partly initialised handle reaches the caller; but the detection session loaded
  before the failure (address 2) and the \<^verbatim>\<open>OCRHandle\<close> object (address 1) are still
  allocated when it returns: the handler deletes neither.
\<close>

theorem nativeInit_leaks_loaded_session:
  "fst (nativeInit det_only_loader empty_world ''det.onnx'' ''cls.onnx'' ''rec.onnx'') = 0 \<and>
   ort_sessions
     (snd (nativeInit det_only_loader empty_world ''det.onnx'' ''cls.onnx'' ''rec.onnx'')) 2
     = Some (answering_session []) \<and>
   ocr_handles
     (snd (nativeInit det_only_loader empty_world ''det.onnx'' ''cls.onnx'' ''rec.onnx'')) 1
     = Some \<lparr>detSession = 2, clsSession = 0, recSession = 0\<rparr>"
  by (simp add: nativeInit_def new_OCRHandle_def new_Session_def assign_handle_def
      det_only_loader_def empty_world_def Let_def numeral_2_eq_2)

subsection \<open>The boundary of \<^verbatim>\<open>nativeDetectText\<close> and \<^verbatim>\<open>nativeRecognizeText\<close>\<close>

text \<open>
  Claim C6. With the null handle both functions return \<^verbatim>\<open>nullptr\<close> and leave the
  world as it was: no pixel buffer is locked or encoded and no session is run.
\<close>

theorem null_handle_returns_at_once:
  "nativeDetectText w 0 bmp = Inr (None, w) \<and> nativeRecognizeText w 0 bmp = Inr (None, w)"
  by (simp add: nativeDetectText_def nativeRecognizeText_def)

theorem null_handle_returns_at_once_witness:
  "nativeDetectText ready_world 0 two_pixels = Inr (None, ready_world) \<and>
   nativeRecognizeText ready_world 0 two_pixels = Inr (None, ready_world) \<and>
   events ready_world = []"
  using null_handle_returns_at_once [of ready_world two_pixels]
  by (simp add: ready_world_def)

text \<open>The \<^verbatim>\<open>try\<close> blocks write neither to the handle objects nor to the sessions.\<close>

lemma detect_try_frame:
  "detect_try w handle bmp = (r, w') \<Longrightarrow>
     ocr_handles w' = ocr_handles w \<and> ort_sessions w' = ort_sessions w \<and>
     next_addr w' = next_addr w"
  by (auto simp: detect_try_def emit_def Let_def
      split: sum.splits option.splits list.splits)

lemma recognize_try_frame:
  "recognize_try w handle bmp = (r, w') \<Longrightarrow>
     ocr_handles w' = ocr_handles w \<and> ort_sessions w' = ort_sessions w \<and>
     next_addr w' = next_addr w"
  by (auto simp: recognize_try_def emit_def Let_def
      split: sum.splits option.splits list.splits)

text \<open>
  Where the \<^verbatim>\<open>try\<close> block of \<^verbatim>\<open>nativeDetectText\<close> throws: in the encoder (the
  pixels stay locked) and in \<^verbatim>\<open>Run\<close>. The decoder cannot throw.
\<close>

lemma detect_try_encoder_throws:
  assumes "detect_encode (sint (info_width (bitmap_info bmp)))
             (sint (info_height (bitmap_info bmp))) (bitmap_pixels bmp) = Inl (Thrown e)"
  shows "detect_try w handle bmp = (Inl (Thrown e), emit LockPixels w)"
  using assms by (simp add: detect_try_def Let_def)

lemma detect_try_run_throws:
  assumes "detect_encode (sint (info_width (bitmap_info bmp)))
             (sint (info_height (bitmap_info bmp))) (bitmap_pixels bmp) = Inr inputTensor"
    and "ocr_handles w handle = Some h" "ort_sessions w (detSession h) = Some s"
    and "GetInputName s = Inr inputName"
    and "Run s inputName
           \<lparr>tensor_shape = [1, 3, sint (info_height (bitmap_info bmp)),
                             sint (info_width (bitmap_info bmp))],
            tensor_data = inputTensor\<rparr> = Inl e"
  shows "detect_try w handle bmp =
           (Inl (Thrown e),
            emit (SessionRun (detSession h)) (emit UnlockPixels (emit LockPixels w)))"
  using assms by (simp add: detect_try_def emit_def Let_def)

lemma decode_feats_never_throws: "decode_feats featDim outputData i j detection \<noteq> Inl (Thrown e)"
proof (induction featDim outputData i j detection rule: decode_feats.induct)
  case (1 featDim outputData i j detection)
  then show ?case
    by (subst decode_feats.simps) (auto simp: load_at_def split: sum.splits if_splits)
qed

lemma decode_dets_never_throws: "decode_dets numDets featDim outputData i dets \<noteq> Inl (Thrown e)"
proof (induction numDets featDim outputData i dets rule: decode_dets.induct)
  case (1 numDets featDim outputData i dets)
  then show ?case
    by (subst decode_dets.simps)
      (auto simp: decode_feats_never_throws split: sum.splits if_splits)
qed

lemma detection_decode_never_throws: "detection_decode outputShape outputData \<noteq> Inl (Thrown e)"
  by (simp add: detection_decode_def Let_def decode_dets_never_throws)

text \<open>
  Claim C8, as amended. On a handle that is not null and owns live sessions, every
  exception thrown inside \<^verbatim>\<open>nativeDetectText\<close> or \<^verbatim>\<open>nativeRecognizeText\<close> is turned
  into \<^verbatim>\<open>nullptr\<close> for that call: the \<^verbatim>\<open>std::length_error\<close> of the encoder's vector,
  an exception of \<^verbatim>\<open>GetInputName\<close> and an exception of \<^verbatim>\<open>Run\<close>; the decoder throws
  nothing. Every call that returns leaves the handle objects and the sessions as
  they were, so the handle can be used again. Faults that are undefined behaviour
  and not exceptions are no part of this statement.
\<close>

theorem exceptions_caught_at_boundary:
  assumes "handle \<noteq> 0" "ocr_handles w handle = Some h"
    and "ort_sessions w (detSession h) = Some sd"
    and "ort_sessions w (recSession h) = Some sr"
    and "width = sint (info_width (bitmap_info bmp))"
    and "height = sint (info_height (bitmap_info bmp))"
  shows
    "(detect_encode width height (bitmap_pixels bmp) = Inl (Thrown e) \<longrightarrow>
        nativeDetectText w handle bmp = Inr (None, emit LockPixels w)) \<and>
     (detect_encode width height (bitmap_pixels bmp) = Inr t \<and> GetInputName sd = Inl e \<longrightarrow>
        nativeDetectText w handle bmp = Inr (None, emit UnlockPixels (emit LockPixels w))) \<and>
     (detect_encode width height (bitmap_pixels bmp) = Inr t \<and> GetInputName sd = Inr n \<and>
      Run sd n \<lparr>tensor_shape = [1, 3, height, width], tensor_data = t\<rparr> = Inl e \<longrightarrow>
        nativeDetectText w handle bmp =
          Inr (None, emit (SessionRun (detSession h)) (emit UnlockPixels (emit LockPixels w)))) \<and>
     detection_decode outputShape outputData \<noteq> Inl (Thrown e) \<and>
     (recognize_encode width height (bitmap_pixels bmp) = Inl (Thrown e) \<longrightarrow>
        nativeRecognizeText w handle bmp = Inr (None, emit LockPixels w)) \<and>
     (recognize_encode width height (bitmap_pixels bmp) = Inr t \<and> GetInputName sr = Inl e \<longrightarrow>
        nativeRecognizeText w handle bmp = Inr (None, emit UnlockPixels (emit LockPixels w))) \<and>
     (recognize_encode width height (bitmap_pixels bmp) = Inr t \<and> GetInputName sr = Inr n \<and>
      Run sr n \<lparr>tensor_shape = [1, 3, height, width], tensor_data = t\<rparr> = Inl e \<longrightarrow>
        nativeRecognizeText w handle bmp =
          Inr (None, emit (SessionRun (recSession h)) (emit UnlockPixels (emit LockPixels w)))) \<and>
     (nativeDetectText w handle bmp = Inr (dets, w') \<longrightarrow>
        ocr_handles w' = ocr_handles w \<and> ort_sessions w' = ort_sessions w) \<and>
     (nativeRecognizeText w handle bmp = Inr (result, w') \<longrightarrow>
        ocr_handles w' = ocr_handles w \<and> ort_sessions w' = ort_sessions w)"
proof -
  have d1: "nativeDetectText w handle bmp = Inr (None, emit LockPixels w)"
    if "detect_encode width height (bitmap_pixels bmp) = Inl (Thrown e)"
    using that assms(1,5,6) by (simp add: nativeDetectText_def detect_try_def Let_def)
  have d2: "nativeDetectText w handle bmp = Inr (None, emit UnlockPixels (emit LockPixels w))"
    if "detect_encode width height (bitmap_pixels bmp) = Inr t" "GetInputName sd = Inl e"
    using that assms by (simp add: nativeDetectText_def detect_try_def emit_def Let_def)
  have d3: "nativeDetectText w handle bmp =
      Inr (None, emit (SessionRun (detSession h)) (emit UnlockPixels (emit LockPixels w)))"
    if "detect_encode width height (bitmap_pixels bmp) = Inr t" "GetInputName sd = Inr n"
      "Run sd n \<lparr>tensor_shape = [1, 3, height, width], tensor_data = t\<rparr> = Inl e"
    using that assms by (simp add: nativeDetectText_def detect_try_def emit_def Let_def)
  have r1: "nativeRecognizeText w handle bmp = Inr (None, emit LockPixels w)"
    if "recognize_encode width height (bitmap_pixels bmp) = Inl (Thrown e)"
    using that assms(1,5,6) by (simp add: nativeRecognizeText_def recognize_try_def Let_def)
  have r2: "nativeRecognizeText w handle bmp =
      Inr (None, emit UnlockPixels (emit LockPixels w))"
    if "recognize_encode width height (bitmap_pixels bmp) = Inr t" "GetInputName sr = Inl e"
    using that assms by (simp add: nativeRecognizeText_def recognize_try_def emit_def Let_def)
  have r3: "nativeRecognizeText w handle bmp =
      Inr (None, emit (SessionRun (recSession h)) (emit UnlockPixels (emit LockPixels w)))"
    if "recognize_encode width height (bitmap_pixels bmp) = Inr t" "GetInputName sr = Inr n"
      "Run sr n \<lparr>tensor_shape = [1, 3, height, width], tensor_data = t\<rparr> = Inl e"
    using that assms by (simp add: nativeRecognizeText_def recognize_try_def emit_def Let_def)
  have fd: "ocr_handles w' = ocr_handles w \<and> ort_sessions w' = ort_sessions w"
    if "nativeDetectText w handle bmp = Inr (dets, w')"
  proof -
    obtain r w1 where r: "detect_try w handle bmp = (r, w1)"
      by (cases "detect_try w handle bmp")
    with that assms(1) have "w1 = w'"
      by (auto simp: nativeDetectText_def split: sum.splits fault.splits)
    with detect_try_frame [OF r] show ?thesis by simp
  qed
  have fr: "ocr_handles w' = ocr_handles w \<and> ort_sessions w' = ort_sessions w"
    if "nativeRecognizeText w handle bmp = Inr (result, w')"
  proof -
    obtain r w1 where r: "recognize_try w handle bmp = (r, w1)"
      by (cases "recognize_try w handle bmp")
    with that assms(1) have "w1 = w'"
      by (auto simp: nativeRecognizeText_def split: sum.splits fault.splits)
    with recognize_try_frame [OF r] show ?thesis by simp
  qed
  from d1 d2 d3 r1 r2 r3 fd fr detection_decode_never_throws [of outputShape outputData e]
  show ?thesis by blast
qed

text \<open>
  The theorem where \<^verbatim>\<open>Run\<close> throws (inference), and where the vector constructor
  throws because the width is read as \<open>- 1\<close> (encoding).
\<close>

theorem exceptions_caught_at_boundary_witness:
  "nativeDetectText faulty_world 1 two_pixels =
     Inr (None, faulty_world\<lparr>events := [LockPixels, UnlockPixels, SessionRun 2]\<rparr>) \<and>
   nativeRecognizeText faulty_world 1 two_pixels =
     Inr (None, faulty_world\<lparr>events := [LockPixels, UnlockPixels, SessionRun 4]\<rparr>) \<and>
   nativeDetectText faulty_world 1 huge_width =
     Inr (None, faulty_world\<lparr>events := [LockPixels]\<rparr>) \<and>
   nativeRecognizeText faulty_world 1 huge_width =
     Inr (None, faulty_world\<lparr>events := [LockPixels]\<rparr>)"
proof -
  let ?h = "\<lparr>detSession = 2, clsSession = 3, recSession = 4\<rparr>"
  let ?t = "[34 / 255, 0, 51 / 255, 1, 68 / 255, 128 / 255] :: real list"
  let ?e = "OrtException ''run failed''"
  have v: "(1 :: nat) \<noteq> 0" "ocr_handles faulty_world 1 = Some ?h"
    "ort_sessions faulty_world (detSession ?h) = Some throwing_session"
    "ort_sessions faulty_world (recSession ?h) = Some throwing_session"
    by (simp_all add: faulty_world_def)
  have two: "(2 :: int) = sint (info_width (bitmap_info two_pixels))"
    "(1 :: int) = sint (info_height (bitmap_info two_pixels))"
    "bitmap_pixels two_pixels = [0x11223344, 0xFF00FF80]"
    by (simp_all add: two_pixels_def)
  have huge: "(- 1 :: int) = sint (info_width (bitmap_info huge_width))"
    "(1 :: int) = sint (info_height (bitmap_info huge_width))"
    "bitmap_pixels huge_width = []"
    by (simp_all add: huge_width_def)
  have enc: "detect_encode 2 1 [0x11223344, 0xFF00FF80] = Inr ?t"
    "recognize_encode 2 1 [0x11223344, 0xFF00FF80] = Inr ?t"
    by (simp_all add: encode_eval six_zeros)
  have thr: "detect_encode (- 1) 1 [] = Inl (Thrown LengthError)"
    "recognize_encode (- 1) 1 [] = Inl (Thrown LengthError)"
    by (simp_all add: encode_eval)
  have run: "GetInputName throwing_session = Inr ''x''"
    "Run throwing_session ''x'' \<lparr>tensor_shape = [1, 3, 1, 2], tensor_data = ?t\<rparr> = Inl ?e"
    by (simp_all add: throwing_session_def)
  note a = exceptions_caught_at_boundary [OF v two(1,2), where e = ?e and t = ?t and n = "''x''"]
  note b = exceptions_caught_at_boundary [OF v huge(1,2), where e = LengthError]
  from a enc run two(3) have
    "nativeDetectText faulty_world 1 two_pixels =
       Inr (None, emit (SessionRun (detSession ?h))
                    (emit UnlockPixels (emit LockPixels faulty_world)))"
    "nativeRecognizeText faulty_world 1 two_pixels =
       Inr (None, emit (SessionRun (recSession ?h))
                    (emit UnlockPixels (emit LockPixels faulty_world)))"
    by simp_all
  moreover from b thr huge(3) have
    "nativeDetectText faulty_world 1 huge_width = Inr (None, emit LockPixels faulty_world)"
    "nativeRecognizeText faulty_world 1 huge_width = Inr (None, emit LockPixels faulty_world)"
    by simp_all
  ultimately show ?thesis by (simp add: emit_def faulty_world_def)
qed

text \<open>
  The claim as stated fails for faults that are not exceptions. On the valid handle
  of \<open>ready_world\<close>, a one-pixel image whose buffer is too short makes the encoder
  read past the end: neither function returns \<^verbatim>\<open>nullptr\<close>, the fault is undefined
  behaviour and no handler sees it.
\<close>

theorem short_buffer_not_caught_counterexample:
  "(1 :: nat) \<noteq> 0 \<and>
   ocr_handles ready_world 1 = Some \<lparr>detSession = 2, clsSession = 3, recSession = 4\<rparr> \<and>
   nativeDetectText ready_world 1 short_buffer = Inl OutOfBounds \<and>
   nativeRecognizeText ready_world 1 short_buffer = Inl OutOfBounds"
  by (simp add: nativeDetectText_def nativeRecognizeText_def detect_try_def recognize_try_def
      ready_world_def short_buffer_def emit_def encode_eval)

text \<open>
  The same happens after inference when the session returns no output at all:
  \<^verbatim>\<open>output[0]\<close> is read from an empty vector.
\<close>

lemma empty_output_not_caught:
  "nativeDetectText
     (ready_world\<lparr>ort_sessions := (ort_sessions ready_world)(2 \<mapsto> answering_session [])\<rparr>)
     1 one_pixel = Inl OutOfBounds"
  by (simp add: nativeDetectText_def detect_try_def ready_world_def one_pixel_def
      emit_def answering_session_def encode_eval)

end
